theory Spec2Isabelle
  imports Main
begin

section \<open>Platform model: query strings and \<open>URLSearchParams\<close>\<close>

text \<open>
  The product page component reads and rewrites \<open>window.location.search\<close> through the
  browser's \<open>URLSearchParams\<close>. Strings are byte lists; a parameter list is the ordered
  list of name/value tuples the browser keeps. The parser and the serializer follow the
  \<open>application/x-www-form-urlencoded\<close> algorithms of the URL standard: split on
  \<open>&\<close>, skip empty pieces, split each piece at its first \<open>=\<close>, turn \<open>+\<close> into a
  space and percent-decode; serialize by percent-encoding every byte outside
  \<open>A-Z a-z 0-9 * - . _\<close>, writing a space as \<open>+\<close>. A JavaScript string is read as
  its UTF-8 bytes, so the decoder's replacement of ill-formed UTF-8 by U+FFFD is the one
  thing left out.
\<close>

type_synonym URLSearchParams = "(string \<times> string) list"

definition is_alnum :: "char \<Rightarrow> bool" where
  "is_alnum c =
     (let n = (of_char c :: nat)
      in (48 \<le> n \<and> n \<le> 57) \<or> (65 \<le> n \<and> n \<le> 90) \<or> (97 \<le> n \<and> n \<le> 122))"

definition is_unreserved :: "char \<Rightarrow> bool" where
  "is_unreserved c =
     (is_alnum c \<or> c = CHR ''*'' \<or> c = CHR ''-'' \<or> c = CHR ''.'' \<or> c = CHR ''_'')"

definition hex_digit :: "nat \<Rightarrow> char" where
  "hex_digit n = (if n < 10 then char_of (48 + n) else char_of (55 + n))"

definition hex_value :: "char \<Rightarrow> nat option" where
  "hex_value c =
     (let n = (of_char c :: nat)
      in if 48 \<le> n \<and> n \<le> 57 then Some (n - 48)
         else if 65 \<le> n \<and> n \<le> 70 then Some (n - 55)
         else if 97 \<le> n \<and> n \<le> 102 then Some (n - 87)
         else None)"

definition encode_byte :: "char \<Rightarrow> string" where
  "encode_byte c =
     (if c = CHR '' '' then ''+''
      else if is_unreserved c then [c]
      else [CHR ''%'', hex_digit ((of_char c :: nat) div 16), hex_digit ((of_char c :: nat) mod 16)])"

definition percent_encode :: "string \<Rightarrow> string" where
  "percent_encode s = concat (map encode_byte s)"

fun percent_decode :: "string \<Rightarrow> string" where
  "percent_decode (c # h1 # h2 # s) =
     (case (if c = CHR ''%'' then hex_value h1 else None, hex_value h2) of
        (Some a, Some b) \<Rightarrow> char_of (16 * a + b) # percent_decode s
      | _ \<Rightarrow> c # percent_decode (h1 # h2 # s))"
| "percent_decode s = s"

definition plus_to_space :: "string \<Rightarrow> string" where
  "plus_to_space s = map (\<lambda>c. if c = CHR ''+'' then CHR '' '' else c) s"

fun split_on :: "char \<Rightarrow> string \<Rightarrow> string list" where
  "split_on d [] = [[]]"
| "split_on d (c # s) =
     (if c = d then [] # split_on d s
      else (case split_on d s of [] \<Rightarrow> [[c]] | w # ws \<Rightarrow> (c # w) # ws))"

definition parse_tuple :: "string \<Rightarrow> string \<times> string" where
  "parse_tuple bytes =
     (let name = takeWhile (\<lambda>c. c \<noteq> CHR ''='') bytes;
          val = drop 1 (dropWhile (\<lambda>c. c \<noteq> CHR ''='') bytes)
      in (percent_decode (plus_to_space name), percent_decode (plus_to_space val)))"

definition urlencoded_parse :: "string \<Rightarrow> URLSearchParams" where
  "urlencoded_parse input =
     map parse_tuple (filter (\<lambda>bytes. bytes \<noteq> []) (split_on (CHR ''&'') input))"

fun urlencoded_serialize :: "URLSearchParams \<Rightarrow> string" where
  "urlencoded_serialize [] = []"
| "urlencoded_serialize [(n, v)] = percent_encode n @ ''='' @ percent_encode v"
| "urlencoded_serialize ((n, v) # rest) =
     percent_encode n @ ''='' @ percent_encode v @ ''&'' @ urlencoded_serialize rest"

text \<open>\<open>new URLSearchParams(init)\<close> for a string drops one leading \<open>?\<close> and parses the rest.\<close>

definition new_URLSearchParams :: "string \<Rightarrow> URLSearchParams" where
  "new_URLSearchParams init =
     urlencoded_parse (case init of c # s \<Rightarrow> (if c = CHR ''?'' then s else init) | [] \<Rightarrow> [])"

text \<open>\<open>get\<close>: the value of the first tuple with that name, \<open>null\<close> (here \<open>None\<close>) if none.\<close>

fun params_get :: "URLSearchParams \<Rightarrow> string \<Rightarrow> string option" where
  "params_get [] k = None"
| "params_get ((n, v) # ps) k = (if n = k then Some v else params_get ps k)"

text \<open>
  \<open>set\<close>: with a tuple of that name present, the first one takes the value and the others
  are removed; otherwise the tuple is appended.
\<close>

fun params_set :: "URLSearchParams \<Rightarrow> string \<Rightarrow> string \<Rightarrow> URLSearchParams" where
  "params_set [] k x = [(k, x)]"
| "params_set ((n, v) # ps) k x =
     (if n = k then (k, x) # filter (\<lambda>p. fst p \<noteq> k) ps else (n, v) # params_set ps k x)"

definition toString :: "URLSearchParams \<Rightarrow> string" where
  "toString ps = urlencoded_serialize ps"


section \<open>Product page component: variant URL synchronization\<close>

record selected_option =
  name :: string
  "value" :: string

text \<open>
  A variant as the effect reads it: \<open>selectedVariant?.selectedOptions\<close> may be missing
  (\<open>None\<close>); an empty array is present and truthy.
\<close>

record variant =
  variant_id :: string
  title :: string
  selectedOptions :: "selected_option list option"

text \<open>\<open>window.location\<close>: \<open>search\<close> is empty or starts with \<open>?\<close>.\<close>

record location =
  pathname :: string
  search :: string

text \<open>
  First loop of the effect (lines 104-110): stop at the first option whose value in the
  current parameters is not the variant's; \<open>get\<close> of an absent name is \<open>null\<close>,
  which differs from every string.
\<close>

fun options_differ :: "URLSearchParams \<Rightarrow> selected_option list \<Rightarrow> bool" where
  "options_differ currentParams [] = False"
| "options_differ currentParams (option # rest) =
     (if params_get currentParams (name option) \<noteq> Some (value option) then True
      else options_differ currentParams rest)"

definition needsUpdate :: "selected_option list \<Rightarrow> string \<Rightarrow> bool" where
  "needsUpdate options location_search =
     (if location_search = [] then True
      else options_differ (new_URLSearchParams location_search) options)"

text \<open>Second loop (lines 118-120): \<open>updatedParams.set(option.name, option.value)\<close> in order.\<close>

fun set_options :: "URLSearchParams \<Rightarrow> selected_option list \<Rightarrow> URLSearchParams" where
  "set_options updatedParams [] = updatedParams"
| "set_options updatedParams (option # rest) =
     set_options (params_set updatedParams (name option) (value option)) rest"

text \<open>
  The body of \<open>useEffect\<close> (lines 91-131). The result is the URL handed to
  \<open>window.history.replaceState\<close>, or \<open>None\<close> when the effect returns without
  calling it.
\<close>

definition sync_effect :: "variant option \<Rightarrow> bool \<Rightarrow> location \<Rightarrow> string option" where
  "sync_effect selectedVariant combinedListing loc =
     (case (case selectedVariant of None \<Rightarrow> None | Some v \<Rightarrow> selectedOptions v) of
        None \<Rightarrow> None
      | Some options \<Rightarrow>
          if combinedListing then None
          else
            let currentParams = new_URLSearchParams (search loc) in
            if needsUpdate options (search loc) then
              let updatedParams = set_options currentParams options;
                  newSearch = toString updatedParams
              in if newSearch \<noteq> drop 1 (search loc)
                 then Some (pathname loc @ ''?'' @ newSearch)
                 else None
            else None)"

text \<open>
  What the browser does with \<open>replaceState({}, "", url)\<close> for a path-absolute
  \<open>url\<close>: the fragment (from \<open>#\<close>) is cut off, the path runs to the first \<open>?\<close>,
  the query is the rest, and \<open>location.search\<close> of an empty query is the empty string.
  No history entry is added and nothing is loaded.
\<close>

definition replaceState :: "location \<Rightarrow> string \<Rightarrow> location" where
  "replaceState loc url =
     (let u = takeWhile (\<lambda>c. c \<noteq> CHR ''#'') url;
          q = dropWhile (\<lambda>c. c \<noteq> CHR ''?'') u
      in \<lparr>pathname = takeWhile (\<lambda>c. c \<noteq> CHR ''?'') u,
          search = (if length q \<le> 1 then [] else q)\<rparr>)"

text \<open>One run of the effect against the browser: the location afterwards.\<close>

definition run_sync :: "variant option \<Rightarrow> bool \<Rightarrow> location \<Rightarrow> location" where
  "run_sync selectedVariant combinedListing loc =
     (case sync_effect selectedVariant combinedListing loc of
        None \<Rightarrow> loc
      | Some url \<Rightarrow> replaceState loc url)"


section \<open>Server: the product and home route loaders\<close>

record shop =
  shop_name :: string
  description :: string
  primaryDomain_url :: string

record product =
  product_id :: string
  handle :: string
  product_title :: string
  vendor :: string
  selectedOrFirstAvailableVariant :: "variant option"

text \<open>Result of \<open>PRODUCT_QUERY\<close>: \<open>product\<close> is \<open>null\<close> on a lookup miss.\<close>

record catalog =
  shop :: shop
  product :: "product option"

record i18n =
  country :: string
  language :: string
  pathPrefix :: "string option"

record request =
  url :: string

record response =
  body :: "string option"
  status :: nat
  redirect_location :: "string option"

text \<open>
  What a loader can throw: the error of \<open>invariant\<close>, a thrown \<open>Response\<close>
  (the 404 of line 51, a redirect of the helpers), the failure of the content
  validation, or the reason of a rejected read.
\<close>

datatype failure = InvariantFailed string | Thrown response | ContentAbsent | ReadRejected string

datatype page_type = INDEX | CUSTOM | PRODUCT

text \<open>Members of Hydrogen's \<open>AnalyticsPageType\<close>; the home loader uses \<open>home\<close>.\<close>

datatype AnalyticsPageType = home | page | notFound

text \<open>
  The loaders call modules of the application and of its libraries that are not part of
  the sources at hand (\<open>~/.server/redirect\<close>, \<open>~/.server/seo\<close>,
  \<open>~/utils/combined-listings\<close>, \<open>~/weaverse\<close>, \<open>./recommended-product\<close>,
  \<open>@weaverse/hydrogen\<close>). They are parameters of the model. A helper whose result
  the loader drops can only act by throwing: it yields \<open>Some\<close> of what it throws,
  \<open>None\<close> when it returns.
\<close>

record ('c, 'seo, 'rec) server =
  getSelectedProductOptions :: "request \<Rightarrow> selected_option list"
  redirectIfHandleIsLocalized :: "request \<Rightarrow> string \<Rightarrow> product \<Rightarrow> failure option"
  redirectToFirstVariant :: bool
  redirectIfCombinedListing :: "request \<Rightarrow> product \<Rightarrow> failure option"
  getRecommendedProducts :: "string \<Rightarrow> 'rec"
  seoPayload_product :: "product \<Rightarrow> string \<Rightarrow> 'seo"
  seoPayload_home :: 'seo
  validateWeaverseData :: "'c option \<Rightarrow> failure option"

text \<open>The calls a loader makes to its collaborators, in program order.\<close>

datatype call =
    GetSelectedProductOptions
  | StorefrontQuery_PRODUCT string "selected_option list" string string
  | StorefrontQuery_SHOP
  | LoadPage page_type "string option"
  | RedirectIfHandleIsLocalized
  | RedirectIfCombinedListing
  | GetRecommendedProducts string
  | SeoPayload_product
  | SeoPayload_home
  | ValidateWeaverseData

record ('c, 'seo, 'rec) product_data =
  data_shop :: shop
  data_product :: product
  weaverseData :: "'c option"
  storeDomain :: string
  seo :: 'seo
  recommended :: 'rec
  data_selectedOptions :: "selected_option list"

record ('c, 'seo) home_data =
  home_shop :: shop
  home_weaverseData :: "'c option"
  analytics_pageType :: AnalyticsPageType
  home_seo :: 'seo

subsection \<open>\<open>await Promise.all([p, q])\<close>\<close>

text \<open>
  The two reads are started together and settle in some order. An event is the
  settlement of the first or of the second promise of the array, fulfilled with a value
  (\<open>Inr\<close>) or rejected with a reason (\<open>Inl\<close>); a promise settles once, so a later
  event for the same slot changes nothing. The combined promise is fulfilled with the
  positional pair when both slots are filled, and rejected at the first rejection.
\<close>

datatype ('a, 'b) settlement = First "failure + 'a" | Second "failure + 'b"

datatype ('a, 'b) all_state = Pending "'a option" "'b option" | Rejected failure | Fulfilled 'a 'b

fun promise_all_step :: "('a, 'b) all_state \<Rightarrow> ('a, 'b) settlement \<Rightarrow> ('a, 'b) all_state" where
  "promise_all_step (Pending None y) (First (Inl e)) = Rejected e"
| "promise_all_step (Pending None None) (First (Inr a)) = Pending (Some a) None"
| "promise_all_step (Pending None (Some b)) (First (Inr a)) = Fulfilled a b"
| "promise_all_step (Pending x None) (Second (Inl e)) = Rejected e"
| "promise_all_step (Pending None None) (Second (Inr b)) = Pending None (Some b)"
| "promise_all_step (Pending (Some a) None) (Second (Inr b)) = Fulfilled a b"
| "promise_all_step st ev = st"

definition promise_all :: "('a, 'b) settlement list \<Rightarrow> ('a, 'b) all_state" where
  "promise_all events = foldl promise_all_step (Pending None None) events"

text \<open>
  A loader under a schedule is still suspended at its \<open>await\<close>, or it has settled;
  \<open>payload_of\<close> is the data it returned, if it returned any.
\<close>

datatype 'r async = Suspended "call list" | Settled 'r

fun payload_of :: "(call list \<times> (failure + 'd)) async \<Rightarrow> 'd option" where
  "payload_of (Settled (trace, Inr d)) = Some d"
| "payload_of other = None"

subsection \<open>Product loader (lines 30-71)\<close>

text \<open>Lines 31-48: the handle check and the start of the two reads.\<close>

definition loader_start ::
  "('c, 'seo, 'rec) server \<Rightarrow> i18n \<Rightarrow> string option \<Rightarrow> request \<Rightarrow>
     failure + (string \<times> selected_option list \<times> call list)" where
  "loader_start srv i params_productHandle req =
     (case params_productHandle of
        None \<Rightarrow> Inl (InvariantFailed ''Missing productHandle param, check route filename'')
      | Some h \<Rightarrow>
          if h = [] then Inl (InvariantFailed ''Missing productHandle param, check route filename'')
          else
            let selected = getSelectedProductOptions srv req
            in Inr (h, selected,
                    [GetSelectedProductOptions,
                     StorefrontQuery_PRODUCT h selected (country i) (language i),
                     LoadPage PRODUCT (Some h)]))"

text \<open>Lines 50-70: what runs once both reads have delivered.\<close>

definition loader_resume ::
  "('c, 'seo, 'rec) server \<Rightarrow> request \<Rightarrow> string \<Rightarrow> selected_option list \<Rightarrow> call list \<Rightarrow>
     catalog \<Rightarrow> 'c option \<Rightarrow> call list \<times> (failure + ('c, 'seo, 'rec) product_data)" where
  "loader_resume srv req h selected trace cat weaverse_data =
     (case (case product cat of None \<Rightarrow> None
            | Some p \<Rightarrow> if product_id p = [] then None else Some p) of
        None \<Rightarrow>
          (trace, Inl (Thrown \<lparr>body = Some ''product'', status = 404, redirect_location = None\<rparr>))
      | Some p \<Rightarrow>
          (case redirectIfHandleIsLocalized srv req h p of
             Some e \<Rightarrow> (trace @ [RedirectIfHandleIsLocalized], Inl e)
           | None \<Rightarrow>
               let trace1 = trace @ [RedirectIfHandleIsLocalized];
                   trace2 = (if redirectToFirstVariant srv
                             then trace1 @ [RedirectIfCombinedListing] else trace1)
               in (case (if redirectToFirstVariant srv
                         then redirectIfCombinedListing srv req p else None) of
                     Some e \<Rightarrow> (trace2, Inl e)
                   | None \<Rightarrow>
                       (trace2 @ [GetRecommendedProducts (product_id p), SeoPayload_product],
                        Inr \<lparr>data_shop = shop cat,
                             data_product = p,
                             weaverseData = weaverse_data,
                             storeDomain = primaryDomain_url (shop cat),
                             seo = seoPayload_product srv p (url req),
                             recommended = getRecommendedProducts srv (product_id p),
                             data_selectedOptions = selected\<rparr>))))"

text \<open>The loader, given what the two reads deliver.\<close>

definition loader ::
  "('c, 'seo, 'rec) server \<Rightarrow> i18n \<Rightarrow> string option \<Rightarrow> request \<Rightarrow> catalog \<Rightarrow> 'c option \<Rightarrow>
     call list \<times> (failure + ('c, 'seo, 'rec) product_data)" where
  "loader srv i params_productHandle req cat weaverse_data =
     (case loader_start srv i params_productHandle req of
        Inl e \<Rightarrow> ([], Inl e)
      | Inr (h, selected, trace) \<Rightarrow> loader_resume srv req h selected trace cat weaverse_data)"

text \<open>The loader under a schedule of completions of its two reads.\<close>

definition loader_async ::
  "('c, 'seo, 'rec) server \<Rightarrow> i18n \<Rightarrow> string option \<Rightarrow> request \<Rightarrow>
     (catalog, 'c option) settlement list \<Rightarrow>
     (call list \<times> (failure + ('c, 'seo, 'rec) product_data)) async" where
  "loader_async srv i params_productHandle req events =
     (case loader_start srv i params_productHandle req of
        Inl e \<Rightarrow> Settled ([], Inl e)
      | Inr (h, selected, trace) \<Rightarrow>
          (case promise_all events of
             Pending x y \<Rightarrow> Suspended trace
           | Rejected e \<Rightarrow> Settled (trace, Inl e)
           | Fulfilled cat weaverse_data \<Rightarrow>
               Settled (loader_resume srv req h selected trace cat weaverse_data)))"

subsection \<open>Home loader (\<open>home.tsx\<close>, lines 13-44)\<close>

text \<open>\<open>toLowerCase\<close> on the bytes of a string: the ASCII capitals.\<close>

definition toLowerCase :: "string \<Rightarrow> string" where
  "toLowerCase s =
     map (\<lambda>c. let n = (of_char c :: nat) in if 65 \<le> n \<and> n \<le> 90 then char_of (n + 32) else c) s"

text \<open>Lines 15-22.\<close>

definition home_page_type :: "i18n \<Rightarrow> string option \<Rightarrow> page_type" where
  "home_page_type i params_locale =
     (let locale = (case pathPrefix i of None \<Rightarrow> [] | Some pre \<Rightarrow> drop 1 pre)
      in case params_locale of
           None \<Rightarrow> INDEX
         | Some l \<Rightarrow> if l \<noteq> [] \<and> toLowerCase l \<noteq> locale then CUSTOM else INDEX)"

definition home_start :: "i18n \<Rightarrow> string option \<Rightarrow> call list" where
  "home_start i params_locale =
     [SeoPayload_home, LoadPage (home_page_type i params_locale) None, StorefrontQuery_SHOP]"

text \<open>Lines 33-43.\<close>

definition home_resume ::
  "('c, 'seo, 'rec) server \<Rightarrow> call list \<Rightarrow> 'c option \<Rightarrow> shop \<Rightarrow>
     call list \<times> (failure + ('c, 'seo) home_data)" where
  "home_resume srv trace weaverse_data sh =
     (case validateWeaverseData srv weaverse_data of
        Some e \<Rightarrow> (trace @ [ValidateWeaverseData], Inl e)
      | None \<Rightarrow>
          (trace @ [ValidateWeaverseData],
           Inr \<lparr>home_shop = sh,
                home_weaverseData = weaverse_data,
                analytics_pageType = home,
                home_seo = seoPayload_home srv\<rparr>))"

definition home_loader ::
  "('c, 'seo, 'rec) server \<Rightarrow> i18n \<Rightarrow> string option \<Rightarrow> 'c option \<Rightarrow> shop \<Rightarrow>
     call list \<times> (failure + ('c, 'seo) home_data)" where
  "home_loader srv i params_locale weaverse_data sh =
     home_resume srv (home_start i params_locale) weaverse_data sh"

definition home_loader_async ::
  "('c, 'seo, 'rec) server \<Rightarrow> i18n \<Rightarrow> string option \<Rightarrow> ('c option, shop) settlement list \<Rightarrow>
     (call list \<times> (failure + ('c, 'seo) home_data)) async" where
  "home_loader_async srv i params_locale events =
     (case promise_all events of
        Pending x y \<Rightarrow> Suspended (home_start i params_locale)
      | Rejected e \<Rightarrow> Settled (home_start i params_locale, Inl e)
      | Fulfilled weaverse_data sh \<Rightarrow>
          Settled (home_resume srv (home_start i params_locale) weaverse_data sh))"


subsection \<open>The absent helpers as the specification describes them\<close>

text \<open>
  Modelled from the spec: \<open>redirectIfHandleIsLocalized\<close> (\<open>~/.server/redirect\<close>) is
  not among the sources. Section 4.1, step 5: if the canonical handle of the product
  differs from the requested handle, respond with a redirect to the canonical URL,
  preserving the query parameters. The product route is \<open>/products/{handle}\<close>
  (section 6).
\<close>

definition spec_redirectIfHandleIsLocalized :: "request \<Rightarrow> string \<Rightarrow> product \<Rightarrow> failure option" where
  "spec_redirectIfHandleIsLocalized req h p =
     (if handle p \<noteq> h
      then Some (Thrown \<lparr>body = None, status = 302,
                         redirect_location =
                           Some (''/products/'' @ handle p @ dropWhile (\<lambda>c. c \<noteq> CHR ''?'') (url req))\<rparr>)
      else None)"

text \<open>
  Modelled from the spec: \<open>redirectIfCombinedListing\<close> (\<open>~/.server/redirect\<close>) is not
  among the sources. Section 4.1, step 6: if the product is a combined listing, redirect
  to the first child variant's canonical URL. Which products are combined listings
  (\<open>isCombinedListing\<close> of \<open>~/utils/combined-listings\<close>) and the handle of the first
  child are parameters.
\<close>

definition spec_redirectIfCombinedListing ::
  "(product \<Rightarrow> bool) \<Rightarrow> (product \<Rightarrow> string) \<Rightarrow> request \<Rightarrow> product \<Rightarrow> failure option" where
  "spec_redirectIfCombinedListing isCombinedListing first_child_handle req p =
     (if isCombinedListing p
      then Some (Thrown \<lparr>body = None, status = 302,
                         redirect_location = Some (''/products/'' @ first_child_handle p)\<rparr>)
      else None)"

text \<open>
  Modelled from the spec: \<open>validateWeaverseData\<close> (\<open>~/weaverse\<close>) is not among the
  sources. Section 4.2: validate that the page content is present; if absent, fail.
\<close>

definition spec_validateWeaverseData :: "'c option \<Rightarrow> failure option" where
  "spec_validateWeaverseData weaverse_data =
     (case weaverse_data of None \<Rightarrow> Some ContentAbsent | Some c \<Rightarrow> None)"

text \<open>
  Modelled from the spec: \<open>getSelectedProductOptions\<close> (\<open>@weaverse/hydrogen\<close>) is not
  among the sources. Section 4.1, step 2: parse the selected options from the request's
  query string.
\<close>

definition spec_getSelectedProductOptions :: "request \<Rightarrow> selected_option list" where
  "spec_getSelectedProductOptions req =
     map (\<lambda>p. \<lparr>name = fst p, value = snd p\<rparr>)
       (new_URLSearchParams (dropWhile (\<lambda>c. c \<noteq> CHR ''?'') (url req)))"

text \<open>
  The collaborators put together, for the worked examples: every product is a combined
  listing whose first child has the handle \<open>choco-box-dark\<close>; the SEO payload and the
  pending recommendation are stand-ins that name their subject.
\<close>

definition example_server :: "bool \<Rightarrow> (string, string, string) server" where
  "example_server redirect_flag =
     \<lparr>getSelectedProductOptions = spec_getSelectedProductOptions,
      redirectIfHandleIsLocalized = spec_redirectIfHandleIsLocalized,
      redirectToFirstVariant = redirect_flag,
      redirectIfCombinedListing =
        spec_redirectIfCombinedListing (\<lambda>p. True) (\<lambda>p. ''choco-box-dark''),
      getRecommendedProducts = (\<lambda>product_id. ''recommended for '' @ product_id),
      seoPayload_product = (\<lambda>p u. ''seo for '' @ product_title p),
      seoPayload_home = ''seo for home'',
      validateWeaverseData = spec_validateWeaverseData\<rparr>"

definition example_i18n :: i18n where
  "example_i18n = \<lparr>country = ''FR'', language = ''FR'', pathPrefix = Some ''/fr''\<rparr>"

definition example_shop :: shop where
  "example_shop =
     \<lparr>shop_name = ''Tastee'', description = ''Treats'', primaryDomain_url = ''https://tastee.example''\<rparr>"

definition example_variant :: variant where
  "example_variant =
     \<lparr>variant_id = ''gid://shopify/ProductVariant/1'', title = ''Large / Dark'',
      selectedOptions = Some [\<lparr>name = ''Size'', value = ''Large''\<rparr>,
                              \<lparr>name = ''Flavor'', value = ''Dark''\<rparr>]\<rparr>"

definition example_product :: product where
  "example_product =
     \<lparr>product_id = ''gid://shopify/Product/1'', handle = ''choco-box'',
      product_title = ''Choco Box'', vendor = ''Tastee'',
      selectedOrFirstAvailableVariant = Some example_variant\<rparr>"

section \<open>Facts about the platform model\<close>

subsection \<open>Support definitions\<close>

text \<open>One serialized tuple, and the value a list of options finally gives a name.\<close>

definition serialize_tuple :: "string \<times> string \<Rightarrow> string" where
  "serialize_tuple p = percent_encode (fst p) @ CHR ''='' # percent_encode (snd p)"

fun option_value :: "selected_option list \<Rightarrow> string \<Rightarrow> string option" where
  "option_value [] k = None"
| "option_value (option # rest) k =
     (case option_value rest k of
        Some v \<Rightarrow> Some v
      | None \<Rightarrow> (if name option = k then Some (value option) else None))"

definition overwrite :: "selected_option list \<Rightarrow> string \<times> string \<Rightarrow> string \<times> string" where
  "overwrite opts p = (case option_value opts (fst p) of Some v \<Rightarrow> (fst p, v) | None \<Rightarrow> p)"

text \<open>
  A location as the browser keeps it: no \<open>?\<close> or \<open>#\<close> in the path, and a search
  string that is empty or starts with \<open>?\<close>.
\<close>

definition location_ok :: "location \<Rightarrow> bool" where
  "location_ok loc =
     (CHR ''?'' \<notin> set (pathname loc) \<and> CHR ''#'' \<notin> set (pathname loc) \<and>
      (case search loc of [] \<Rightarrow> True | c # q \<Rightarrow> c = CHR ''?''))"

subsection \<open>Encoding and decoding\<close>

lemma special_reserved:
  "\<not> is_unreserved (CHR ''&'')" "\<not> is_unreserved (CHR ''='')" "\<not> is_unreserved (CHR ''#'')"
  "\<not> is_unreserved (CHR ''?'')" "\<not> is_unreserved (CHR ''+'')" "\<not> is_unreserved (CHR ''%'')"
  by (simp_all add: is_unreserved_def is_alnum_def)

lemma of_char_hex_digit:
  "n < 16 \<Longrightarrow> (of_char (hex_digit n) :: nat) = (if n < 10 then 48 + n else 55 + n)"
  by (simp add: hex_digit_def)

lemma hex_digit_unreserved: "n < 16 \<Longrightarrow> is_unreserved (hex_digit n)"
  by (simp add: is_unreserved_def is_alnum_def of_char_hex_digit)

lemma hex_value_digit: "n < 16 \<Longrightarrow> hex_value (hex_digit n) = Some n"
  by (simp add: hex_value_def of_char_hex_digit)

lemma nibbles: "(of_char c :: nat) div 16 < 16" "(of_char c :: nat) mod 16 < 16"
proof -
  have "(of_char c :: nat) < 256" by simp
  then show "(of_char c :: nat) div 16 < 16" by arith
  show "(of_char c :: nat) mod 16 < 16" by simp
qed

lemma encode_byte_chars:
  assumes "c \<in> set (encode_byte b)"
  shows "is_unreserved c \<or> c = CHR ''+'' \<or> c = CHR ''%''"
proof (cases "b = CHR '' ''")
  case True
  with assms show ?thesis by (simp add: encode_byte_def)
next
  case False
  show ?thesis
  proof (cases "is_unreserved b")
    case True
    with False assms show ?thesis by (simp add: encode_byte_def)
  next
    case nu: False
    with False assms have "c = CHR ''%'' \<or> c = hex_digit ((of_char b :: nat) div 16)
        \<or> c = hex_digit ((of_char b :: nat) mod 16)"
      by (simp add: encode_byte_def)
    then show ?thesis using hex_digit_unreserved nibbles by blast
  qed
qed

lemma percent_encode_chars:
  "c \<in> set (percent_encode s) \<Longrightarrow> is_unreserved c \<or> c = CHR ''+'' \<or> c = CHR ''%''"
  unfolding percent_encode_def by (induction s) (auto dest: encode_byte_chars)

lemma percent_encode_plain:
  "CHR ''&'' \<notin> set (percent_encode s)" "CHR ''='' \<notin> set (percent_encode s)"
  "CHR ''#'' \<notin> set (percent_encode s)" "CHR ''?'' \<notin> set (percent_encode s)"
  using percent_encode_chars [of _ s] special_reserved by blast+


lemma percent_decode_literal:
  assumes "c \<noteq> CHR ''%''"
  shows "percent_decode (c # s) = c # percent_decode s"
proof (cases s)
  case Nil
  then show ?thesis by simp
next
  case (Cons a t)
  with assms show ?thesis by (cases t) simp_all
qed

lemma percent_decode_escape:
  "hex_value h1 = Some a \<Longrightarrow> hex_value h2 = Some b \<Longrightarrow>
     percent_decode (CHR ''%'' # h1 # h2 # s) = char_of (16 * a + b) # percent_decode s"
  by simp

lemma hex_digit_not_plus: "n < 16 \<Longrightarrow> hex_digit n \<noteq> CHR ''+''"
  using hex_digit_unreserved special_reserved(5) by metis

lemma decode_encode_byte:
  "percent_decode (plus_to_space (encode_byte c @ s)) = c # percent_decode (plus_to_space s)"
proof -
  consider (sp) "c = CHR '' ''" | (un) "c \<noteq> CHR '' ''" "is_unreserved c"
    | (esc) "c \<noteq> CHR '' ''" "\<not> is_unreserved c"
    by blast
  then show ?thesis
  proof cases
    case sp
    then show ?thesis
      by (simp add: encode_byte_def plus_to_space_def percent_decode_literal)
  next
    case un
    then have "c \<noteq> CHR ''+''" "c \<noteq> CHR ''%''"
      using special_reserved by auto
    with un show ?thesis
      by (simp add: encode_byte_def plus_to_space_def percent_decode_literal)
  next
    case esc
    let ?hi = "(of_char c :: nat) div 16" and ?lo = "(of_char c :: nat) mod 16"
    have enc: "encode_byte c = [CHR ''%'', hex_digit ?hi, hex_digit ?lo]"
      using esc by (simp add: encode_byte_def)
    have "plus_to_space (encode_byte c @ s) =
            CHR ''%'' # hex_digit ?hi # hex_digit ?lo # plus_to_space s"
      by (simp add: enc plus_to_space_def hex_digit_not_plus nibbles)
    moreover have "percent_decode (CHR ''%'' # hex_digit ?hi # hex_digit ?lo # plus_to_space s)
            = char_of (16 * ?hi + ?lo) # percent_decode (plus_to_space s)"
      by (rule percent_decode_escape) (simp_all add: hex_value_digit nibbles)
    moreover have "char_of (16 * ?hi + ?lo) = c"
      by simp
    ultimately show ?thesis by simp
  qed
qed

lemma decode_encode: "percent_decode (plus_to_space (percent_encode s)) = s"
proof (induction s)
  case Nil
  then show ?case by (simp add: percent_encode_def plus_to_space_def)
next
  case (Cons c s)
  have "percent_encode (c # s) = encode_byte c @ percent_encode s"
    by (simp add: percent_encode_def)
  then show ?case using Cons decode_encode_byte by simp
qed


lemma split_on_none: "d \<notin> set a \<Longrightarrow> split_on d a = [a]"
  by (induction a) auto

lemma split_on_first: "d \<notin> set a \<Longrightarrow> split_on d (a @ d # b) = a # split_on d b"
  by (induction a) auto

lemma takeWhile_upto: "d \<notin> set a \<Longrightarrow> takeWhile (\<lambda>c. c \<noteq> d) (a @ d # b) = a"
  by (induction a) auto

lemma dropWhile_upto: "d \<notin> set a \<Longrightarrow> dropWhile (\<lambda>c. c \<noteq> d) (a @ d # b) = d # b"
  by (induction a) auto

lemma serialize_tuple_no_amp: "CHR ''&'' \<notin> set (serialize_tuple p)"
  by (simp add: serialize_tuple_def percent_encode_plain)

lemma serialize_tuple_nonempty: "serialize_tuple p \<noteq> []"
  by (simp add: serialize_tuple_def)

lemma parse_serialize_tuple: "parse_tuple (serialize_tuple p) = p"
  by (simp add: parse_tuple_def serialize_tuple_def takeWhile_upto dropWhile_upto
      percent_encode_plain decode_encode)

lemma serialize_Cons:
  "urlencoded_serialize (p # ps) =
     (if ps = [] then serialize_tuple p
      else serialize_tuple p @ CHR ''&'' # urlencoded_serialize ps)"
  by (cases p; cases ps) (simp_all add: serialize_tuple_def)

lemma split_serialize:
  "ps \<noteq> [] \<Longrightarrow> split_on (CHR ''&'') (urlencoded_serialize ps) = map serialize_tuple ps"
proof (induction ps)
  case Nil
  then show ?case by simp
next
  case (Cons p ps)
  show ?case
  proof (cases "ps = []")
    case True
    then show ?thesis
      using split_on_none [OF serialize_tuple_no_amp, of p] by (simp add: serialize_Cons)
  next
    case False
    then have "split_on (CHR ''&'') (urlencoded_serialize (p # ps))
        = serialize_tuple p # split_on (CHR ''&'') (urlencoded_serialize ps)"
      by (simp only: serialize_Cons if_False split_on_first [OF serialize_tuple_no_amp])
    then show ?thesis using Cons.IH False by simp
  qed
qed

lemma parse_serialize: "urlencoded_parse (urlencoded_serialize ps) = ps"
proof (cases "ps = []")
  case True
  then show ?thesis by (simp add: urlencoded_parse_def)
next
  case False
  then have "split_on (CHR ''&'') (urlencoded_serialize ps) = map serialize_tuple ps"
    by (rule split_serialize)
  then show ?thesis
    by (simp add: urlencoded_parse_def serialize_tuple_nonempty o_def parse_serialize_tuple)
qed

lemma serialize_plain:
  "CHR ''#'' \<notin> set (urlencoded_serialize ps)" "CHR ''?'' \<notin> set (urlencoded_serialize ps)"
  by (induction ps) (simp_all add: serialize_Cons serialize_tuple_def percent_encode_plain)

lemma serialize_nonempty: "ps \<noteq> [] \<Longrightarrow> urlencoded_serialize ps \<noteq> []"
  by (cases ps) (simp_all add: serialize_Cons serialize_tuple_nonempty)

subsection \<open>Reading and setting parameters\<close>

lemma params_get_filter: "params_get ps k = (case filter (\<lambda>p. fst p = k) ps of [] \<Rightarrow> None | p # _ \<Rightarrow> Some (snd p))"
  by (induction ps) auto

lemma filter_params_set:
  "filter (\<lambda>p. fst p = n) (params_set ps k x) =
     (if n = k then [(k, x)] else filter (\<lambda>p. fst p = n) ps)"
proof (induction ps)
  case Nil
  then show ?case by simp
next
  case (Cons p ps)
  have "filter (\<lambda>q. fst q = k) (filter (\<lambda>q. fst q \<noteq> k) ps) = []"
    by (simp add: filter_empty_conv)
  moreover have "n \<noteq> k \<Longrightarrow>
      filter (\<lambda>q. fst q = n) (filter (\<lambda>q. fst q \<noteq> k) ps) = filter (\<lambda>q. fst q = n) ps"
    by (induction ps) auto
  ultimately show ?case using Cons by (cases p) auto
qed

lemma filter_set_options:
  "filter (\<lambda>p. fst p = n) (set_options ps opts) =
     (case option_value opts n of
        Some v \<Rightarrow> [(n, v)]
      | None \<Rightarrow> filter (\<lambda>p. fst p = n) ps)"
proof (induction opts arbitrary: ps)
  case Nil
  then show ?case by simp
next
  case (Cons option rest)
  then show ?case by (simp add: filter_params_set split: option.splits)
qed

lemma params_set_frame:
  "k \<in> K \<Longrightarrow> filter (\<lambda>p. fst p \<notin> K) (params_set ps k x) = filter (\<lambda>p. fst p \<notin> K) ps"
proof (induction ps)
  case Nil
  then show ?case by simp
next
  case (Cons p ps)
  moreover have "filter (\<lambda>q. fst q \<notin> K) (filter (\<lambda>q. fst q \<noteq> k) ps) = filter (\<lambda>q. fst q \<notin> K) ps"
    using Cons.prems by (induction ps) auto
  ultimately show ?case by (cases p) auto
qed

lemma set_options_frame:
  "name ` set opts \<subseteq> K \<Longrightarrow>
     filter (\<lambda>p. fst p \<notin> K) (set_options ps opts) = filter (\<lambda>p. fst p \<notin> K) ps"
  by (induction opts arbitrary: ps) (simp_all add: params_set_frame)

lemma params_set_unique:
  "filter (\<lambda>p. fst p = k) ps = [(k, y)] \<Longrightarrow>
     params_set ps k x = map (\<lambda>p. if fst p = k then (k, x) else p) ps"
proof (induction ps)
  case Nil
  then show ?case by simp
next
  case (Cons p ps)
  show ?case
  proof (cases "fst p = k")
    case True
    with Cons.prems have "filter (\<lambda>p. fst p = k) ps = []" by simp
    then have none: "\<forall>q \<in> set ps. fst q \<noteq> k" by (simp add: filter_empty_conv)
    then have "filter (\<lambda>q. fst q \<noteq> k) ps = ps" by simp
    moreover have "map (\<lambda>p. if fst p = k then (k, x) else p) ps = ps"
      using none by (simp add: map_idI)
    ultimately show ?thesis using True by (cases p) simp
  next
    case False
    with Cons show ?thesis by (cases p) simp
  qed
qed

lemma option_value_Some: "option \<in> set opts \<Longrightarrow> \<exists>v. option_value opts (name option) = Some v"
  by (induction opts) (auto split: option.splits)

lemma option_value_distinct:
  "distinct (map name opts) \<Longrightarrow> option \<in> set opts \<Longrightarrow>
     option_value opts (name option) = Some (value option)"
proof (induction opts)
  case Nil
  then show ?case by simp
next
  case (Cons a opts)
  have none: "\<And>k. k \<notin> name ` set opts \<Longrightarrow> option_value opts k = None"
    by (induction opts) (auto split: option.splits)
  from Cons show ?case by (auto simp: none split: option.splits)
qed

lemma fst_overwrite: "fst (overwrite opts p) = fst p"
  by (simp add: overwrite_def split: option.splits)

lemma set_options_unique:
  "\<forall>option \<in> set opts. \<exists>y. filter (\<lambda>p. fst p = name option) ps = [(name option, y)] \<Longrightarrow>
     set_options ps opts = map (overwrite opts) ps"
proof (induction opts arbitrary: ps)
  case Nil
  then show ?case by (simp add: overwrite_def map_idI)
next
  case (Cons option rest)
  let ?k = "name option" and ?x = "value option"
  let ?upd = "\<lambda>p. if fst p = ?k then (?k, ?x) else p"
  from Cons.prems obtain y where "filter (\<lambda>p. fst p = ?k) ps = [(?k, y)]" by auto
  then have step: "params_set ps ?k ?x = map ?upd ps" by (rule params_set_unique)
  have "\<forall>o' \<in> set rest. \<exists>y. filter (\<lambda>p. fst p = name o') (map ?upd ps) = [(name o', y)]"
  proof
    fix o' assume "o' \<in> set rest"
    with Cons.prems obtain z where z: "filter (\<lambda>p. fst p = name o') ps = [(name o', z)]" by auto
    have "filter (\<lambda>p. fst p = name o') (map ?upd ps) = map ?upd (filter (\<lambda>p. fst p = name o') ps)"
      by (induction ps) auto
    then show "\<exists>y. filter (\<lambda>p. fst p = name o') (map ?upd ps) = [(name o', y)]"
      using z by auto
  qed
  then have "set_options (map ?upd ps) rest = map (overwrite rest) (map ?upd ps)"
    by (rule Cons.IH)
  moreover have "overwrite rest (?upd p) = overwrite (option # rest) p" for p
    by (cases p) (auto simp: overwrite_def split: option.splits)
  ultimately show ?case by (simp add: step o_def)
qed

lemma set_options_idem: "set_options (set_options ps opts) opts = set_options ps opts"
proof -
  let ?ps1 = "set_options ps opts"
  have uniq: "\<forall>option \<in> set opts. \<exists>y. filter (\<lambda>p. fst p = name option) ?ps1 = [(name option, y)]"
    using option_value_Some by (fastforce simp: filter_set_options)
  have "overwrite opts p = p" if "p \<in> set ?ps1" for p
  proof (cases "option_value opts (fst p)")
    case None
    then show ?thesis by (simp add: overwrite_def)
  next
    case (Some v)
    then have "filter (\<lambda>q. fst q = fst p) ?ps1 = [(fst p, v)]"
      by (simp add: filter_set_options)
    moreover have "p \<in> set (filter (\<lambda>q. fst q = fst p) ?ps1)" using that by simp
    ultimately have "p = (fst p, v)" by simp
    then show ?thesis using Some by (simp add: overwrite_def)
  qed
  then have "map (overwrite opts) ?ps1 = ?ps1" by (simp add: map_idI)
  then show ?thesis using set_options_unique [OF uniq] by simp
qed

lemma options_differ_iff:
  "options_differ cp opts \<longleftrightarrow> (\<exists>option \<in> set opts. params_get cp (name option) \<noteq> Some (value option))"
  by (induction opts) auto

lemma params_get_set_options:
  "params_get (set_options ps opts) k =
     (case option_value opts k of Some v \<Rightarrow> Some v | None \<Rightarrow> params_get ps k)"
  by (simp add: params_get_filter [of _ k] filter_set_options split: option.splits)

section \<open>Facts about the component and the loaders\<close>

subsection \<open>The effect and the browser\<close>

text \<open>
  A call of \<open>replaceState\<close> by the effect always carries a non-empty query built by
  the serializer, so the browser reads its own path and that query back.
\<close>


lemma set_options_empty: "set_options ps opts = [] \<Longrightarrow> opts = [] \<and> ps = []"
proof (induction opts arbitrary: ps)
  case Nil
  then show ?case by simp
next
  case (Cons option rest)
  have "params_set ps (name option) (value option) \<noteq> []"
    by (cases ps) (auto split: if_splits)
  with Cons show ?case by auto
qed

lemma new_URLSearchParams_query: "new_URLSearchParams (CHR ''?'' # q) = urlencoded_parse q"
  by (simp add: new_URLSearchParams_def)

lemma new_URLSearchParams_empty: "new_URLSearchParams [] = []"
  by (simp add: new_URLSearchParams_def urlencoded_parse_def)

lemma replaceState_built:
  assumes "CHR ''?'' \<notin> set path" "CHR ''#'' \<notin> set path" "ps \<noteq> []"
  shows "replaceState loc (path @ ''?'' @ toString ps)
           = \<lparr>pathname = path, search = CHR ''?'' # toString ps\<rparr>"
proof -
  let ?q = "urlencoded_serialize ps"
  have nohash: "CHR ''#'' \<notin> set (path @ CHR ''?'' # ?q)"
    using assms(2) serialize_plain(1) by simp
  then have cut: "takeWhile (\<lambda>c. c \<noteq> CHR ''#'') (path @ CHR ''?'' # ?q) = path @ CHR ''?'' # ?q"
    by (simp only: takeWhile_eq_all_conv) blast
  have "?q \<noteq> []" using assms(3) by (rule serialize_nonempty)
  then have len: "\<not> length (CHR ''?'' # ?q) \<le> 1" by (cases ?q) simp_all
  show ?thesis
    unfolding replaceState_def toString_def Let_def
    using len by (simp add: cut takeWhile_upto [OF assms(1)] dropWhile_upto [OF assms(1)])
qed

lemma sync_effect_Some:
  assumes "sync_effect sv cl loc = Some u"
  obtains v opts where "sv = Some v" "selectedOptions v = Some opts" "\<not> cl"
    "needsUpdate opts (search loc)"
    "u = pathname loc @ ''?'' @ toString (set_options (new_URLSearchParams (search loc)) opts)"
    "set_options (new_URLSearchParams (search loc)) opts \<noteq> []"
proof -
  from assms obtain v opts where v: "sv = Some v" "selectedOptions v = Some opts"
    by (auto simp: sync_effect_def split: option.splits)
  let ?ps = "set_options (new_URLSearchParams (search loc)) opts"
  from assms v have cl: "\<not> cl" and nu: "needsUpdate opts (search loc)"
    and ne: "toString ?ps \<noteq> drop 1 (search loc)"
    and u: "u = pathname loc @ ''?'' @ toString ?ps"
    by (auto simp: sync_effect_def Let_def split: if_splits)
  have "?ps \<noteq> []"
  proof
    assume e: "?ps = []"
    then have "opts = []" using set_options_empty by blast
    with nu have "search loc = []" by (simp add: needsUpdate_def split: if_splits)
    with e ne show False by (simp add: toString_def)
  qed
  with v cl nu u that show thesis by blast
qed

lemma sync_effect_fixed:
  assumes "selectedOptions v = Some opts"
  shows "sync_effect (Some v) cl
           \<lparr>pathname = path, search = CHR ''?'' # toString (set_options ps opts)\<rparr> = None"
proof -
  have "new_URLSearchParams (CHR ''?'' # toString (set_options ps opts)) = set_options ps opts"
    by (simp add: new_URLSearchParams_query toString_def parse_serialize)
  then show ?thesis
    using assms by (simp add: sync_effect_def Let_def set_options_idem)
qed

lemma serialize_empty_iff: "urlencoded_serialize ps = [] \<longleftrightarrow> ps = []"
  using serialize_nonempty by auto

lemma synced_params:
  assumes ok: "location_ok loc" and opts: "selectedOptions v = Some opts"
  defines "cp \<equiv> new_URLSearchParams (search loc)"
  defines "ps' \<equiv> new_URLSearchParams (search (run_sync (Some v) False loc))"
  shows "ps' = set_options cp opts \<or> (ps' = cp \<and> \<not> options_differ cp opts)"
proof (cases "sync_effect (Some v) False loc")
  case (Some u)
  then obtain v' opts' where v': "Some v = Some v'" "selectedOptions v' = Some opts'"
    and u: "u = pathname loc @ ''?'' @ toString (set_options (new_URLSearchParams (search loc)) opts')"
    and ne: "set_options (new_URLSearchParams (search loc)) opts' \<noteq> []"
    by (rule sync_effect_Some)
  from v' opts have [simp]: "opts' = opts" by simp
  have p: "CHR ''?'' \<notin> set (pathname loc)" "CHR ''#'' \<notin> set (pathname loc)"
    using ok by (simp_all add: location_ok_def)
  have "run_sync (Some v) False loc =
          \<lparr>pathname = pathname loc, search = CHR ''?'' # toString (set_options cp opts)\<rparr>"
    using Some u replaceState_built [OF p ne] by (simp add: run_sync_def cp_def)
  then have "ps' = set_options cp opts"
    by (simp add: ps'_def new_URLSearchParams_query toString_def parse_serialize)
  then show ?thesis ..
next
  case None
  then have same: "ps' = cp" by (simp add: ps'_def cp_def run_sync_def)
  show ?thesis
  proof (cases "needsUpdate opts (search loc)")
    case False
    then have "\<not> options_differ cp opts"
      by (simp add: needsUpdate_def cp_def split: if_splits)
    with same show ?thesis by simp
  next
    case True
    with None opts have eq: "toString (set_options cp opts) = drop 1 (search loc)"
      by (simp add: sync_effect_def Let_def cp_def split: if_splits)
    have "cp = set_options cp opts"
    proof (cases "search loc")
      case Nil
      then have "cp = []" by (simp add: cp_def new_URLSearchParams_empty)
      moreover from eq Nil have "set_options cp opts = []"
        by (simp add: toString_def serialize_empty_iff)
      ultimately show ?thesis by simp
    next
      case (Cons c q)
      with ok have c: "c = CHR ''?''" by (simp add: location_ok_def)
      with Cons eq have "urlencoded_serialize (set_options cp opts) = q"
        by (simp add: toString_def)
      then have "urlencoded_parse q = set_options cp opts"
        using parse_serialize [of "set_options cp opts"] by simp
      with Cons c show ?thesis by (simp add: cp_def new_URLSearchParams_query)
    qed
    with same show ?thesis by simp
  qed
qed

subsection \<open>Joining the two reads\<close>

lemma promise_all_two:
  "promise_all [First (Inr a), Second (Inr b)] = Fulfilled a b"
  "promise_all [Second (Inr b), First (Inr a)] = Fulfilled a b"
  "promise_all [First (Inl e), Second r2] = Rejected e"
  "promise_all [Second (Inl e), First r1] = Rejected e"
  "promise_all [First (Inr a), Second (Inl e)] = Rejected e"
  "promise_all [Second (Inr b), First (Inl e)] = Rejected e"
  by (simp_all add: promise_all_def)

lemma promise_all_one:
  "promise_all [] = Pending None None"
  "promise_all [First (Inr a)] = Pending (Some a) None"
  "promise_all [Second (Inr b)] = Pending None (Some b)"
  "promise_all [First (Inl e)] = Rejected e"
  "promise_all [Second (Inl e)] = Rejected e"
  by (simp_all add: promise_all_def)

lemma loader_join:
  "loader_async srv i ph req [First (Inr cat), Second (Inr w)] = Settled (loader srv i ph req cat w)"
  "loader_async srv i ph req [Second (Inr w), First (Inr cat)] = Settled (loader srv i ph req cat w)"
  by (simp_all add: loader_async_def loader_def promise_all_two split: sum.splits)

lemma loader_join_payload:
  "payload_of (loader_async srv i ph req [First r1, Second r2])
     = payload_of (loader_async srv i ph req [Second r2, First r1])"
  by (cases r1; cases r2) (simp_all add: loader_async_def promise_all_two split: sum.splits)

lemma loader_partial:
  "payload_of (loader_async srv i ph req [First r1]) = None"
  "payload_of (loader_async srv i ph req [Second r2]) = None"
  by (cases r1; cases r2; simp add: loader_async_def promise_all_one split: sum.splits)+

lemma loader_single:
  "loader_async srv i ph req [First (Inr cat)] = loader_async srv i ph req []"
  "loader_async srv i ph req [Second (Inr w)] = loader_async srv i ph req []"
  by (simp_all add: loader_async_def promise_all_one split: sum.splits)

lemma home_single:
  "home_loader_async srv i pl [First (Inr w)] = Suspended (home_start i pl)"
  "home_loader_async srv i pl [Second (Inr sh)] = Suspended (home_start i pl)"
  "home_loader_async srv i pl [] = Suspended (home_start i pl)"
  by (simp_all add: home_loader_async_def promise_all_one)

lemma home_join:
  "home_loader_async srv i pl [First (Inr w), Second (Inr sh)] = Settled (home_loader srv i pl w sh)"
  "home_loader_async srv i pl [Second (Inr sh), First (Inr w)] = Settled (home_loader srv i pl w sh)"
  by (simp_all add: home_loader_async_def home_loader_def promise_all_two)

lemma home_join_payload:
  "payload_of (home_loader_async srv i pl [First r1, Second r2])
     = payload_of (home_loader_async srv i pl [Second r2, First r1])"
  by (cases r1; cases r2) (simp_all add: home_loader_async_def promise_all_two)

lemma home_partial:
  "payload_of (home_loader_async srv i pl [First r1]) = None"
  "payload_of (home_loader_async srv i pl [Second r2]) = None"
  by (cases r1; cases r2; simp add: home_loader_async_def promise_all_one)+

section \<open>Product resolver\<close>

text \<open>
  Claim C1. A product page request whose product fires the localized-handle redirect ends
  with exactly what that helper throws, whether or not the product is also due for the
  combined-listing redirect: the handle check of line 53 runs first, and the trace of
  calls ends with it, so the combined-listing helper of line 56 is not reached. The
  request has a handle and the catalog has found the product.
\<close>

theorem localized_redirect_first:
  assumes "params_productHandle = Some h" and "h \<noteq> []"
    and "product cat = Some p" and "product_id p \<noteq> []"
    and "redirectIfHandleIsLocalized srv req h p = Some e"
  shows "loader srv i params_productHandle req cat weaverse_data =
           ([GetSelectedProductOptions,
             StorefrontQuery_PRODUCT h (getSelectedProductOptions srv req) (country i) (language i),
             LoadPage PRODUCT (Some h),
             RedirectIfHandleIsLocalized],
            Inl e)"
  using assms by (simp add: loader_def loader_start_def loader_resume_def Let_def)

text \<open>
  Both redirects are due for the product \<open>choco-box\<close> requested as
  \<open>boite-choco\<close> with \<open>redirectToFirstVariant\<close> on; the loader answers with the
  localized URL, not with the URL of the first child.
\<close>

theorem localized_redirect_first_witness:
  "redirectIfHandleIsLocalized (example_server True)
       \<lparr>url = ''https://tastee.example/fr/products/boite-choco?Size=Large''\<rparr>
       ''boite-choco'' example_product
     = Some (Thrown \<lparr>body = None, status = 302,
                     redirect_location = Some ''/products/choco-box?Size=Large''\<rparr>)
   \<and> redirectToFirstVariant (example_server True)
   \<and> redirectIfCombinedListing (example_server True)
       \<lparr>url = ''https://tastee.example/fr/products/boite-choco?Size=Large''\<rparr> example_product
     = Some (Thrown \<lparr>body = None, status = 302,
                     redirect_location = Some ''/products/choco-box-dark''\<rparr>)
   \<and> loader (example_server True) example_i18n (Some ''boite-choco'')
         \<lparr>url = ''https://tastee.example/fr/products/boite-choco?Size=Large''\<rparr>
         \<lparr>shop = example_shop, product = Some example_product\<rparr> (Some ''content'')
     = ([GetSelectedProductOptions,
         StorefrontQuery_PRODUCT ''boite-choco'' [\<lparr>name = ''Size'', value = ''Large''\<rparr>]
           ''FR'' ''FR'',
         LoadPage PRODUCT (Some ''boite-choco''),
         RedirectIfHandleIsLocalized],
        Inl (Thrown \<lparr>body = None, status = 302,
                     redirect_location = Some ''/products/choco-box?Size=Large''\<rparr>))"
proof -
  let ?srv = "example_server True :: (string, string, string) server"
  let ?req = "\<lparr>url = ''https://tastee.example/fr/products/boite-choco?Size=Large''\<rparr>"
  let ?e = "Thrown \<lparr>body = None, status = 302,
                    redirect_location = Some ''/products/choco-box?Size=Large''\<rparr>"
  have a: "redirectIfHandleIsLocalized ?srv ?req ''boite-choco'' example_product = Some ?e"
    by code_simp
  have b: "redirectToFirstVariant ?srv"
    by code_simp
  have c: "redirectIfCombinedListing ?srv ?req example_product
             = Some (Thrown \<lparr>body = None, status = 302,
                             redirect_location = Some ''/products/choco-box-dark''\<rparr>)"
    by code_simp
  have p: "product \<lparr>shop = example_shop, product = Some example_product\<rparr> = Some example_product"
    by simp
  have q: "product_id example_product \<noteq> []"
    by (simp add: example_product_def)
  have h: "''boite-choco'' \<noteq> []"
    by simp
  have s: "getSelectedProductOptions ?srv ?req = [\<lparr>name = ''Size'', value = ''Large''\<rparr>]"
    by code_simp
  have l: "country example_i18n = ''FR''" "language example_i18n = ''FR''"
    by (simp_all add: example_i18n_def)
  from localized_redirect_first [OF refl h p q a, of example_i18n "Some ''content''"] a b c s l
  show ?thesis by simp
qed

text \<open>
  Claim C8. When the catalog returns no product, or a product without an id, the loader
  throws the 404 response, and the calls it has made are the option parsing and the two
  reads: neither the recommended-products fetch nor the SEO payload is started.
\<close>

theorem lookup_miss_not_found:
  assumes "params_productHandle = Some h" and "h \<noteq> []"
    and "(case product cat of None \<Rightarrow> True | Some p \<Rightarrow> product_id p = [])"
  shows "loader srv i params_productHandle req cat weaverse_data =
           ([GetSelectedProductOptions,
             StorefrontQuery_PRODUCT h (getSelectedProductOptions srv req) (country i) (language i),
             LoadPage PRODUCT (Some h)],
            Inl (Thrown \<lparr>body = Some ''product'', status = 404, redirect_location = None\<rparr>))"
  using assms
  by (simp add: loader_def loader_start_def loader_resume_def Let_def split: option.splits)

text \<open>
  A lookup miss for \<open>choco-box\<close>.
\<close>

theorem lookup_miss_not_found_witness:
  "loader (example_server True) example_i18n (Some ''choco-box'')
       \<lparr>url = ''https://tastee.example/fr/products/choco-box''\<rparr>
       \<lparr>shop = example_shop, product = None\<rparr> (Some ''content'')
     = ([GetSelectedProductOptions,
         StorefrontQuery_PRODUCT ''choco-box'' [] ''FR'' ''FR'',
         LoadPage PRODUCT (Some ''choco-box'')],
        Inl (Thrown \<lparr>body = Some ''product'', status = 404, redirect_location = None\<rparr>))"
proof -
  let ?srv = "example_server True :: (string, string, string) server"
  let ?req = "\<lparr>url = ''https://tastee.example/fr/products/choco-box''\<rparr>"
  let ?cat = "\<lparr>shop = example_shop, product = None\<rparr>"
  have h: "''choco-box'' \<noteq> []" by simp
  have m: "(case product ?cat of None \<Rightarrow> True | Some p \<Rightarrow> product_id p = [])" by simp
  have s: "getSelectedProductOptions ?srv ?req = []" by code_simp
  have c: "country example_i18n = ''FR''" "language example_i18n = ''FR''"
    by (simp_all add: example_i18n_def)
  from lookup_miss_not_found [OF refl h m, of ?srv example_i18n ?req "Some ''content''"] s c
  show ?thesis by simp
qed

section \<open>Home resolver\<close>

text \<open>
  Claim C3, as stated, fails: for the route segment \<open>fr-custom\<close> under the active
  locale \<open>fr\<close> the page type is \<open>CUSTOM\<close>, and the response still carries the
  analytics page type \<open>home\<close>.
\<close>

theorem home_analytics_custom_counterexample:
  "home_loader (example_server False) example_i18n (Some ''fr-custom'') (Some ''content'')
       example_shop
     = ([SeoPayload_home, LoadPage CUSTOM None, StorefrontQuery_SHOP, ValidateWeaverseData],
        Inr \<lparr>home_shop = example_shop, home_weaverseData = Some ''content'',
             analytics_pageType = home, home_seo = ''seo for home''\<rparr>)"
  by code_simp

text \<open>
  Claim C3, amended. Whenever the content validation lets the home loader return, the
  response carries the analytics page type \<open>home\<close>, for the page type \<open>INDEX\<close>
  and for \<open>CUSTOM\<close> alike; the derived page type only selects the page content that
  is loaded.
\<close>

theorem home_analytics_always_home:
  assumes "validateWeaverseData srv weaverse_data = None"
  shows "home_loader srv i params_locale weaverse_data sh =
           ([SeoPayload_home, LoadPage (home_page_type i params_locale) None,
             StorefrontQuery_SHOP, ValidateWeaverseData],
            Inr \<lparr>home_shop = sh, home_weaverseData = weaverse_data,
                 analytics_pageType = home, home_seo = seoPayload_home srv\<rparr>)"
  using assms by (simp add: home_loader_def home_resume_def home_start_def)

text \<open>
  The home route proper, segment \<open>FR\<close> under the locale \<open>fr\<close>.
\<close>

theorem home_analytics_always_home_witness:
  "validateWeaverseData (example_server False) (Some ''content'') = None
   \<and> home_page_type example_i18n (Some ''FR'') = INDEX
   \<and> home_loader (example_server False) example_i18n (Some ''FR'') (Some ''content'') example_shop
     = ([SeoPayload_home, LoadPage INDEX None, StorefrontQuery_SHOP, ValidateWeaverseData],
        Inr \<lparr>home_shop = example_shop, home_weaverseData = Some ''content'',
             analytics_pageType = home, home_seo = ''seo for home''\<rparr>)"
proof -
  have a: "validateWeaverseData (example_server False) (Some ''content'') = None"
    by code_simp
  have b: "home_page_type example_i18n (Some ''FR'') = INDEX"
    by code_simp
  have c: "seoPayload_home (example_server False) = ''seo for home''"
    by code_simp
  from home_analytics_always_home [OF a, of example_i18n "Some ''FR''" example_shop] a b c
  show ?thesis by simp
qed

text \<open>
  Claim C4, as stated, fails for product pages: with the product found and no redirect
  due, the product loader returns its data although the page content came back absent.
\<close>

theorem product_content_absent_counterexample:
  "loader (example_server False) example_i18n (Some ''choco-box'')
       \<lparr>url = ''https://tastee.example/fr/products/choco-box''\<rparr>
       \<lparr>shop = example_shop, product = Some example_product\<rparr> None
     = ([GetSelectedProductOptions,
         StorefrontQuery_PRODUCT ''choco-box'' [] ''FR'' ''FR'',
         LoadPage PRODUCT (Some ''choco-box''),
         RedirectIfHandleIsLocalized,
         GetRecommendedProducts ''gid://shopify/Product/1'',
         SeoPayload_product],
        Inr \<lparr>data_shop = example_shop,
             data_product = example_product,
             weaverseData = None,
             storeDomain = ''https://tastee.example'',
             seo = ''seo for Choco Box'',
             recommended = ''recommended for gid://shopify/Product/1'',
             data_selectedOptions = []\<rparr>)"
  by code_simp

text \<open>
  Claim C4, amended. The home loader fails with whatever its content validation throws;
  the product loader never runs the content validation, and with the product found and
  no redirect due it returns its data carrying the page content as loaded, present or
  absent.
\<close>

theorem content_validation_home_only:
  "(validateWeaverseData srv weaverse_data = Some e \<longrightarrow>
      snd (home_loader srv i params_locale weaverse_data sh) = Inl e)
   \<and> ValidateWeaverseData \<notin> set (fst (loader srv i params_productHandle req cat weaverse_data))
   \<and> (params_productHandle = Some h \<and> h \<noteq> [] \<and> product cat = Some p \<and> product_id p \<noteq> []
        \<and> redirectIfHandleIsLocalized srv req h p = None
        \<and> (redirectToFirstVariant srv \<longrightarrow> redirectIfCombinedListing srv req p = None) \<longrightarrow>
      (\<exists>d. snd (loader srv i params_productHandle req cat weaverse_data) = Inr d
            \<and> weaverseData d = weaverse_data))"
proof -
  have a: "validateWeaverseData srv weaverse_data = Some e \<longrightarrow>
      snd (home_loader srv i params_locale weaverse_data sh) = Inl e"
    by (simp add: home_loader_def home_resume_def)
  have b: "ValidateWeaverseData \<notin> set (fst (loader srv i params_productHandle req cat weaverse_data))"
    by (simp add: loader_def loader_start_def loader_resume_def Let_def
        split: option.splits sum.splits prod.splits if_splits)
  have c: "params_productHandle = Some h \<and> h \<noteq> [] \<and> product cat = Some p \<and> product_id p \<noteq> []
        \<and> redirectIfHandleIsLocalized srv req h p = None
        \<and> (redirectToFirstVariant srv \<longrightarrow> redirectIfCombinedListing srv req p = None) \<longrightarrow>
      (\<exists>d. snd (loader srv i params_productHandle req cat weaverse_data) = Inr d
            \<and> weaverseData d = weaverse_data)"
    by (simp add: loader_def loader_start_def loader_resume_def Let_def)
  from a b c show ?thesis by blast
qed

text \<open>
  Absent content: the home request fails, the product request returns data.
\<close>

theorem content_validation_home_only_witness:
  "validateWeaverseData (example_server False) None = Some ContentAbsent
   \<and> snd (home_loader (example_server False) example_i18n (Some ''fr'') None example_shop)
       = Inl ContentAbsent
   \<and> ValidateWeaverseData \<notin>
       set (fst (loader (example_server False) example_i18n (Some ''choco-box'')
                   \<lparr>url = ''https://tastee.example/fr/products/choco-box''\<rparr>
                   \<lparr>shop = example_shop, product = Some example_product\<rparr> None))
   \<and> payload_of (Settled (loader (example_server False) example_i18n (Some ''choco-box'')
                   \<lparr>url = ''https://tastee.example/fr/products/choco-box''\<rparr>
                   \<lparr>shop = example_shop, product = Some example_product\<rparr> None))
       \<noteq> None"
proof -
  let ?srv = "example_server False :: (string, string, string) server"
  let ?req = "\<lparr>url = ''https://tastee.example/fr/products/choco-box''\<rparr>"
  let ?cat = "\<lparr>shop = example_shop, product = Some example_product\<rparr>"
  have a: "validateWeaverseData ?srv None = Some ContentAbsent"
    by code_simp
  have b: "Some ''choco-box'' = Some ''choco-box'' \<and> ''choco-box'' \<noteq> []
           \<and> product ?cat = Some example_product \<and> product_id example_product \<noteq> []
           \<and> redirectIfHandleIsLocalized ?srv ?req ''choco-box'' example_product = None
           \<and> (redirectToFirstVariant ?srv \<longrightarrow>
                redirectIfCombinedListing ?srv ?req example_product = None)"
    by code_simp
  note t = content_validation_home_only [where srv = ?srv and weaverse_data = None
      and e = ContentAbsent and i = example_i18n and params_locale = "Some ''fr''"
      and sh = example_shop and params_productHandle = "Some ''choco-box''"
      and req = ?req and cat = ?cat and h = "''choco-box''" and p = example_product]
  from t a b obtain d where
    "snd (loader ?srv example_i18n (Some ''choco-box'') ?req ?cat None) = Inr d"
    by blast
  then have "payload_of (Settled (loader ?srv example_i18n (Some ''choco-box'') ?req ?cat None))
               \<noteq> None"
    by (cases "loader ?srv example_i18n (Some ''choco-box'') ?req ?cat None") simp
  with t a show ?thesis by blast
qed

section \<open>Both resolvers: the join of the two reads\<close>

text \<open>
  Claim C9. What a loader returns depends on the two delivered values only, not on the
  order in which the reads complete: both orders of fulfilment settle the product loader
  and the home loader with the result computed from the two values; a single fulfilment
  leaves the loader where it was before any completion, suspended with no further call
  made; for any two settlements, rejections included, both orders give the same returned
  data; and after a single settlement no data has been returned.
\<close>

theorem join_order_independent:
  "loader_async srv i params_productHandle req [First (Inr cat), Second (Inr weaverse_data)]
     = Settled (loader srv i params_productHandle req cat weaverse_data)
   \<and> loader_async srv i params_productHandle req [Second (Inr weaverse_data), First (Inr cat)]
     = Settled (loader srv i params_productHandle req cat weaverse_data)
   \<and> loader_async srv i params_productHandle req [First (Inr cat)]
     = loader_async srv i params_productHandle req []
   \<and> loader_async srv i params_productHandle req [Second (Inr weaverse_data)]
     = loader_async srv i params_productHandle req []
   \<and> payload_of (loader_async srv i params_productHandle req [First r1, Second r2])
     = payload_of (loader_async srv i params_productHandle req [Second r2, First r1])
   \<and> payload_of (loader_async srv i params_productHandle req [First r1]) = None
   \<and> payload_of (loader_async srv i params_productHandle req [Second r2]) = None
   \<and> home_loader_async srv i params_locale [First (Inr weaverse_data), Second (Inr sh)]
     = Settled (home_loader srv i params_locale weaverse_data sh)
   \<and> home_loader_async srv i params_locale [Second (Inr sh), First (Inr weaverse_data)]
     = Settled (home_loader srv i params_locale weaverse_data sh)
   \<and> home_loader_async srv i params_locale [First (Inr weaverse_data)]
     = home_loader_async srv i params_locale []
   \<and> home_loader_async srv i params_locale [Second (Inr sh)]
     = home_loader_async srv i params_locale []
   \<and> payload_of (home_loader_async srv i params_locale [First r2, Second r3])
     = payload_of (home_loader_async srv i params_locale [Second r3, First r2])
   \<and> payload_of (home_loader_async srv i params_locale [First r2]) = None
   \<and> payload_of (home_loader_async srv i params_locale [Second r3]) = None"
  using loader_join_payload [of srv i params_productHandle req r1 r2]
    home_join_payload [of srv i params_locale r2 r3]
  by (simp add: loader_join loader_partial loader_single home_join home_partial home_single)

section \<open>Variant URL synchronization\<close>

text \<open>
  Claim C2. URL synchronization is idempotent: run once against a location, the effect
  leaves a location on which a second run does not call \<open>replaceState\<close>, so the
  location after the first run is a fixed point, for every selected variant,
  combined-listing flag and query string. The path of the location holds no \<open>?\<close>
  and no \<open>#\<close>, as every \<open>location.pathname\<close> does.
\<close>

theorem url_sync_idempotent:
  assumes "CHR ''?'' \<notin> set (pathname loc)" and "CHR ''#'' \<notin> set (pathname loc)"
  shows "sync_effect selectedVariant combinedListing
           (run_sync selectedVariant combinedListing loc) = None
         \<and> run_sync selectedVariant combinedListing
             (run_sync selectedVariant combinedListing loc)
           = run_sync selectedVariant combinedListing loc"
proof -
  have "sync_effect selectedVariant combinedListing
           (run_sync selectedVariant combinedListing loc) = None"
  proof (cases "sync_effect selectedVariant combinedListing loc")
    case None
    then show ?thesis by (simp add: run_sync_def)
  next
    case (Some u)
    then obtain v opts where v: "selectedVariant = Some v" "selectedOptions v = Some opts"
      and u: "u = pathname loc @ ''?'' @ toString (set_options (new_URLSearchParams (search loc)) opts)"
      and ne: "set_options (new_URLSearchParams (search loc)) opts \<noteq> []"
      by (rule sync_effect_Some)
    have "run_sync selectedVariant combinedListing loc =
            \<lparr>pathname = pathname loc,
             search = CHR ''?'' # toString (set_options (new_URLSearchParams (search loc)) opts)\<rparr>"
      using Some u replaceState_built [OF assms ne] by (simp add: run_sync_def)
    then show ?thesis using v sync_effect_fixed by simp
  qed
  then show ?thesis
    by (simp add: run_sync_def [of _ _ "run_sync selectedVariant combinedListing loc"])
qed

text \<open>
  The scenario of the specification: \<open>?Size=Large\<close> with the variant
  \<open>Size=Large, Flavor=Dark\<close>. The first run rewrites the URL, the second does nothing.
\<close>

theorem url_sync_idempotent_witness:
  "CHR ''?'' \<notin> set ''/products/choco-box'' \<and> CHR ''#'' \<notin> set ''/products/choco-box''
   \<and> sync_effect (Some example_variant) False
         \<lparr>pathname = ''/products/choco-box'', search = ''?Size=Large''\<rparr>
       = Some ''/products/choco-box?Size=Large&Flavor=Dark''
   \<and> sync_effect (Some example_variant) False
         (run_sync (Some example_variant) False
            \<lparr>pathname = ''/products/choco-box'', search = ''?Size=Large''\<rparr>)
       = None"
proof -
  let ?loc = "\<lparr>pathname = ''/products/choco-box'', search = ''?Size=Large''\<rparr>"
  have a: "CHR ''?'' \<notin> set (pathname ?loc)" and b: "CHR ''#'' \<notin> set (pathname ?loc)"
    by simp_all
  have c: "sync_effect (Some example_variant) False ?loc
             = Some ''/products/choco-box?Size=Large&Flavor=Dark''"
    by code_simp
  from url_sync_idempotent [OF a b, of "Some example_variant" False] a b c show ?thesis
    by simp
qed

text \<open>
  Claim C5. For a product that is not a combined listing, the tuples of the query string
  whose names are not option names of the selected variant are the same list, in the same
  order and with the same values, before and after synchronization; and when the option
  names of the variant are distinct, every option of the variant is afterwards in the
  query string with the variant's value.
\<close>

theorem url_sync_preserves_unrelated:
  assumes "location_ok loc" and "selectedOptions v = Some opts"
  shows "filter (\<lambda>p. fst p \<notin> name ` set opts)
             (new_URLSearchParams (search (run_sync (Some v) False loc)))
           = filter (\<lambda>p. fst p \<notin> name ` set opts) (new_URLSearchParams (search loc))
         \<and> (distinct (map name opts) \<longrightarrow>
              (\<forall>option \<in> set opts.
                 params_get (new_URLSearchParams (search (run_sync (Some v) False loc)))
                   (name option) = Some (value option)))"
proof -
  let ?cp = "new_URLSearchParams (search loc)"
  let ?ps = "new_URLSearchParams (search (run_sync (Some v) False loc))"
  from synced_params [OF assms]
  consider (upd) "?ps = set_options ?cp opts" | (same) "?ps = ?cp" "\<not> options_differ ?cp opts"
    by blast
  then show ?thesis
  proof cases
    case upd
    have "filter (\<lambda>p. fst p \<notin> name ` set opts) (set_options ?cp opts)
            = filter (\<lambda>p. fst p \<notin> name ` set opts) ?cp"
      by (rule set_options_frame) simp
    moreover have "params_get (set_options ?cp opts) (name option) = Some (value option)"
      if "distinct (map name opts)" "option \<in> set opts" for option
      using that by (simp add: params_get_set_options option_value_distinct)
    ultimately show ?thesis using upd by simp
  next
    case same
    then show ?thesis by (simp add: options_differ_iff)
  qed
qed

text \<open>
  The parameter \<open>ref=abc\<close> survives next to \<open>Size=Large\<close> and
  \<open>Flavor=Dark\<close>.
\<close>

theorem url_sync_preserves_unrelated_witness:
  "location_ok \<lparr>pathname = ''/products/choco-box'', search = ''?ref=abc&Size=Small''\<rparr>
   \<and> selectedOptions example_variant
       = Some [\<lparr>name = ''Size'', value = ''Large''\<rparr>, \<lparr>name = ''Flavor'', value = ''Dark''\<rparr>]
   \<and> search (run_sync (Some example_variant) False
         \<lparr>pathname = ''/products/choco-box'', search = ''?ref=abc&Size=Small''\<rparr>)
       = ''?ref=abc&Size=Large&Flavor=Dark''
   \<and> filter (\<lambda>p. fst p \<noteq> ''Size'' \<and> fst p \<noteq> ''Flavor'')
         (new_URLSearchParams (search (run_sync (Some example_variant) False
            \<lparr>pathname = ''/products/choco-box'', search = ''?ref=abc&Size=Small''\<rparr>)))
       = [(''ref'', ''abc'')]
   \<and> params_get
         (new_URLSearchParams (search (run_sync (Some example_variant) False
            \<lparr>pathname = ''/products/choco-box'', search = ''?ref=abc&Size=Small''\<rparr>)))
         ''Size'' = Some ''Large''
   \<and> params_get
         (new_URLSearchParams (search (run_sync (Some example_variant) False
            \<lparr>pathname = ''/products/choco-box'', search = ''?ref=abc&Size=Small''\<rparr>)))
         ''Flavor'' = Some ''Dark''"
proof -
  let ?loc = "\<lparr>pathname = ''/products/choco-box'', search = ''?ref=abc&Size=Small''\<rparr>"
  let ?opts = "[\<lparr>name = ''Size'', value = ''Large''\<rparr>, \<lparr>name = ''Flavor'', value = ''Dark''\<rparr>]"
  let ?after = "new_URLSearchParams (search (run_sync (Some example_variant) False ?loc))"
  have a: "location_ok ?loc"
    by code_simp
  have b: "selectedOptions example_variant = Some ?opts"
    by (simp add: example_variant_def)
  have c: "search (run_sync (Some example_variant) False ?loc) = ''?ref=abc&Size=Large&Flavor=Dark''"
    by code_simp
  have d: "distinct (map name ?opts)"
    by simp
  have e: "filter (\<lambda>p. fst p \<notin> name ` set ?opts) (new_URLSearchParams (search ?loc))
             = [(''ref'', ''abc'')]"
    by code_simp
  have f: "(\<lambda>p :: string \<times> string. fst p \<notin> name ` set ?opts)
             = (\<lambda>p. fst p \<noteq> ''Size'' \<and> fst p \<noteq> ''Flavor'')"
    by auto
  from url_sync_preserves_unrelated [OF a b] d e
  have "filter (\<lambda>p. fst p \<notin> name ` set ?opts) ?after = [(''ref'', ''abc'')]"
    and "params_get ?after ''Size'' = Some ''Large''"
    and "params_get ?after ''Flavor'' = Some ''Dark''"
    by simp_all
  with a b c f show ?thesis by simp
qed

text \<open>
  Claim C6. For a combined listing the effect never calls \<open>replaceState\<close> and the
  location stays as it is, whatever the variant and the query string.
\<close>

theorem combined_listing_exempt:
  "sync_effect selectedVariant True loc = None \<and> run_sync selectedVariant True loc = loc"
  by (simp add: sync_effect_def run_sync_def split: option.splits)

text \<open>
  Claim C7. The effect marks an update as needed exactly when the search string is empty
  or some option of the variant has a value in the query string that differs from the
  variant's, an absent name counting as different; when no update is needed, the effect
  does not call \<open>replaceState\<close>.
\<close>

theorem needsUpdate_decision:
  assumes "selectedOptions v = Some opts"
  shows "(needsUpdate opts (search loc) \<longleftrightarrow>
            search loc = [] \<or>
            (\<exists>option \<in> set opts.
               params_get (new_URLSearchParams (search loc)) (name option) \<noteq> Some (value option)))
         \<and> (\<not> needsUpdate opts (search loc) \<longrightarrow>
               sync_effect (Some v) combinedListing loc = None)"
  using assms by (simp add: needsUpdate_def options_differ_iff sync_effect_def)

text \<open>
  Both options are in the query string with the variant's values: nothing to do.
\<close>

theorem needsUpdate_decision_witness:
  "selectedOptions example_variant
       = Some [\<lparr>name = ''Size'', value = ''Large''\<rparr>, \<lparr>name = ''Flavor'', value = ''Dark''\<rparr>]
   \<and> \<not> needsUpdate [\<lparr>name = ''Size'', value = ''Large''\<rparr>, \<lparr>name = ''Flavor'', value = ''Dark''\<rparr>]
         ''?Flavor=Dark&ref=abc&Size=Large''
   \<and> params_get (new_URLSearchParams ''?Flavor=Dark&ref=abc&Size=Large'') ''Size'' = Some ''Large''
   \<and> params_get (new_URLSearchParams ''?Flavor=Dark&ref=abc&Size=Large'') ''Flavor'' = Some ''Dark''
   \<and> sync_effect (Some example_variant) False
         \<lparr>pathname = ''/products/choco-box'', search = ''?Flavor=Dark&ref=abc&Size=Large''\<rparr>
       = None"
proof -
  let ?loc = "\<lparr>pathname = ''/products/choco-box'', search = ''?Flavor=Dark&ref=abc&Size=Large''\<rparr>"
  let ?opts = "[\<lparr>name = ''Size'', value = ''Large''\<rparr>, \<lparr>name = ''Flavor'', value = ''Dark''\<rparr>]"
  have a: "selectedOptions example_variant = Some ?opts"
    by (simp add: example_variant_def)
  have b: "params_get (new_URLSearchParams ''?Flavor=Dark&ref=abc&Size=Large'') ''Size'' = Some ''Large''"
    by code_simp
  have c: "params_get (new_URLSearchParams ''?Flavor=Dark&ref=abc&Size=Large'') ''Flavor'' = Some ''Dark''"
    by code_simp
  from needsUpdate_decision [OF a, of ?loc False] a b c show ?thesis
    by simp
qed

text \<open>
  Claim C10. For a product that is not a combined listing and a variant whose list of
  selected options is empty, the effect never calls \<open>replaceState\<close>: with a query
  string no update is needed; without one the update is needed, but the rebuilt query
  string equals the current, empty one and the last guard holds the call back.
\<close>

theorem empty_options_no_rewrite:
  assumes "selectedOptions v = Some []"
  shows "sync_effect (Some v) False loc = None
         \<and> run_sync (Some v) False loc = loc
         \<and> (search loc \<noteq> [] \<longrightarrow> \<not> needsUpdate [] (search loc))
         \<and> (search loc = [] \<longrightarrow>
               needsUpdate [] (search loc) \<and>
               toString (set_options (new_URLSearchParams (search loc)) []) = drop 1 (search loc))"
proof -
  have a: "search loc \<noteq> [] \<longrightarrow> \<not> needsUpdate [] (search loc)"
    by (simp add: needsUpdate_def)
  have b: "search loc = [] \<longrightarrow>
             needsUpdate [] (search loc) \<and>
             toString (set_options (new_URLSearchParams (search loc)) []) = drop 1 (search loc)"
    by (simp add: needsUpdate_def new_URLSearchParams_empty toString_def)
  have c: "sync_effect (Some v) False loc = None"
    using assms a b by (cases "search loc = []") (simp_all add: sync_effect_def Let_def)
  then have "run_sync (Some v) False loc = loc" by (simp add: run_sync_def)
  with a b c show ?thesis by blast
qed

text \<open>
  With and without a query string.
\<close>

theorem empty_options_no_rewrite_witness:
  "selectedOptions (example_variant\<lparr>selectedOptions := Some []\<rparr>) = Some []
   \<and> needsUpdate [] []
   \<and> sync_effect (Some (example_variant\<lparr>selectedOptions := Some []\<rparr>)) False
         \<lparr>pathname = ''/products/choco-box'', search = []\<rparr> = None
   \<and> \<not> needsUpdate [] ''?ref=abc''
   \<and> sync_effect (Some (example_variant\<lparr>selectedOptions := Some []\<rparr>)) False
         \<lparr>pathname = ''/products/choco-box'', search = ''?ref=abc''\<rparr> = None"
proof -
  let ?v = "example_variant\<lparr>selectedOptions := Some []\<rparr>"
  have a: "selectedOptions ?v = Some []" by simp
  from empty_options_no_rewrite [OF a, of "\<lparr>pathname = ''/products/choco-box'', search = []\<rparr>"]
    empty_options_no_rewrite [OF a, of "\<lparr>pathname = ''/products/choco-box'', search = ''?ref=abc''\<rparr>"]
    a
  show ?thesis by simp
qed

end
